theory Spec2Isabelle
  imports Complex_Main "HOL-Library.Word"
begin

section \<open>The JavaScript values the codec handles\<close>

text \<open>
  The codec of \<^verbatim>\<open>lib/index.js\<close> works on JavaScript strings (sequences of 16-bit code
  units, which is what \<^verbatim>\<open>length\<close>, \<^verbatim>\<open>charAt\<close> and \<^verbatim>\<open>substr\<close> count), on Node buffers
  (sequences of bytes) and on numbers. A number is a double: not-a-number, an infinity, or
  a finite value, which is a rational (the two zeros are one value here: \<^verbatim>\<open>==\<close> and the
  index conversions do not tell them apart).
\<close>

type_synonym byte = "8 word"
type_synonym cunit = "16 word"
type_synonym jsstring = "cunit list"
type_synonym bytes = "byte list"

datatype jsnum = NaN | Fin rat | PosInf | NegInf

datatype exn = TypeError | RangeError

definition js :: "string \<Rightarrow> jsstring" where
  "js s = map of_char s"

definition num :: "nat \<Rightarrow> jsnum" where
  "num n = Fin (of_nat n)"

text \<open>\<^verbatim>\<open>a == b\<close> and \<^verbatim>\<open>a + b\<close> on two numbers.\<close>

definition num_eq :: "jsnum \<Rightarrow> jsnum \<Rightarrow> bool" where
  "num_eq a b = (a \<noteq> NaN \<and> b \<noteq> NaN \<and> a = b)"

fun num_add :: "jsnum \<Rightarrow> jsnum \<Rightarrow> jsnum" where
  "num_add (Fin a) (Fin b) = Fin (a + b)"
| "num_add NaN _ = NaN"
| "num_add _ NaN = NaN"
| "num_add PosInf NegInf = NaN"
| "num_add NegInf PosInf = NaN"
| "num_add PosInf _ = PosInf"
| "num_add _ PosInf = PosInf"
| "num_add NegInf _ = NegInf"
| "num_add _ NegInf = NegInf"

text \<open>
  The platform. Where every JavaScript engine agrees the model fixes the result: the
  number a string of decimal digits denotes, base64 with padding, well-formed UTF-8.
  What an engine does with irregular input (a numeric string with white space, a sign, a
  fraction or an exponent; base64 text with foreign characters or without padding; a lone
  surrogate; ill-formed UTF-8) differs between engines and versions, so it is a parameter:
  a theorem that holds for every \<open>pf\<close> holds for each of them.
\<close>

record platform =
  ToNumber_other :: "jsstring \<Rightarrow> jsnum"
  parseInt_other :: "jsstring \<Rightarrow> jsnum"
  base64_other :: "jsstring \<Rightarrow> bytes"
  utf8_write_other :: "jsstring \<Rightarrow> bytes"
  utf8_read_other :: "bytes \<Rightarrow> jsstring"

subsection \<open>Decimal digits\<close>

definition is_digit :: "cunit \<Rightarrow> bool" where
  "is_digit c = (0x30 \<le> c \<and> c \<le> 0x39)"

definition digit_value :: "cunit \<Rightarrow> nat" where
  "digit_value c = unat c - 48"

definition digit :: "nat \<Rightarrow> cunit" where
  "digit d = of_nat (48 + d)"

definition digits_value :: "jsstring \<Rightarrow> nat" where
  "digits_value s = foldl (\<lambda>a c. 10 * a + digit_value c) 0 s"

text \<open>\<^verbatim>\<open>String(n)\<close>, and \<^verbatim>\<open>n + ':'\<close>, for a length \<open>n\<close>: its decimal digits.\<close>

fun decimal :: "nat \<Rightarrow> jsstring" where
  "decimal n = (if n < 10 then [digit n] else decimal (n div 10) @ [digit (n mod 10)])"

declare decimal.simps [simp del]

text \<open>
  \<^verbatim>\<open>Number(s)\<close>. The empty string is 0 and a string of decimal digits is its value. (A
  double rounds values from \<open>2^53\<close> on; these exceed the length of every string and buffer,
  and the codec only compares the number with such a length or cuts a string with it, so
  the exact value gives the same run.)
\<close>

definition Number :: "platform \<Rightarrow> jsstring \<Rightarrow> jsnum" where
  "Number pf s =
     (if s = [] then num 0
      else if list_all is_digit s then num (digits_value s)
      else ToNumber_other pf s)"

text \<open>\<^verbatim>\<open>parseInt(s)\<close>: not-a-number on the empty string, the value of a digit string.\<close>

definition parseInt :: "platform \<Rightarrow> jsstring \<Rightarrow> jsnum" where
  "parseInt pf s =
     (if s = [] then NaN
      else if list_all is_digit s then num (digits_value s)
      else parseInt_other pf s)"

subsection \<open>Strings and buffers\<close>

text \<open>
  \<^verbatim>\<open>s.charAt(i)\<close> is a string of one code unit, or the empty string out of range.
  \<^verbatim>\<open>s.substr(start, n)\<close> converts \<open>n\<close> to an integer (not-a-number is 0), takes at most
  the rest of the string and nothing when \<open>n\<close> is not positive; \<^verbatim>\<open>s.substr(start)\<close> and
  \<^verbatim>\<open>s.substring(start)\<close> are the rest of the string. The codec calls them with a start
  inside the string.
\<close>

definition charAt :: "jsstring \<Rightarrow> nat \<Rightarrow> jsstring" where
  "charAt s i = (if i < length s then [s ! i] else [])"

definition substr :: "jsstring \<Rightarrow> nat \<Rightarrow> jsnum \<Rightarrow> jsstring" where
  "substr s start n =
     (case n of
        NaN \<Rightarrow> []
      | NegInf \<Rightarrow> []
      | PosInf \<Rightarrow> drop start s
      | Fin q \<Rightarrow> if q \<le> 0 then [] else take (nat \<lfloor>q\<rfloor>) (drop start s))"

definition substring :: "jsstring \<Rightarrow> nat \<Rightarrow> jsstring" where
  "substring s start = drop start s"

text \<open>
  \<^verbatim>\<open>buf[i]\<close> is undefined out of range. \<^verbatim>\<open>buf.slice(start, end)\<close> converts both to integers
  (not-a-number is 0), counts a negative one from the end and clamps both to the buffer.
  \<^verbatim>\<open>buf[i] = v\<close> stores the integer part of a finite number modulo 256, and 0 for
  undefined and for not-a-number.
\<close>

definition buffer_at :: "bytes \<Rightarrow> nat \<Rightarrow> byte option" where
  "buffer_at buf i = (if i < length buf then Some (buf ! i) else None)"

definition clamp :: "jsnum \<Rightarrow> nat \<Rightarrow> nat" where
  "clamp index len =
     (case index of
        NaN \<Rightarrow> 0
      | NegInf \<Rightarrow> 0
      | PosInf \<Rightarrow> len
      | Fin q \<Rightarrow>
          (let k = (if q < 0 then \<lceil>q\<rceil> else \<lfloor>q\<rfloor>)
           in if k < 0 then nat (int len + k) else min (nat k) len))"

definition buffer_slice :: "bytes \<Rightarrow> jsnum \<Rightarrow> jsnum \<Rightarrow> bytes" where
  "buffer_slice buf start end = take (clamp end (length buf) - clamp start (length buf))
                             (drop (clamp start (length buf)) buf)"

definition buffer_slice_from :: "bytes \<Rightarrow> jsnum \<Rightarrow> bytes" where
  "buffer_slice_from buf start = drop (clamp start (length buf)) buf"

definition store :: "jsnum \<Rightarrow> byte" where
  "store v = (case v of Fin q \<Rightarrow> (if q < 0 then of_int \<lceil>q\<rceil> else of_int \<lfloor>q\<rfloor>) | _ \<Rightarrow> 0)"

subsection \<open>Base64\<close>

text \<open>
  \<^verbatim>\<open>buf.toString('base64')\<close> is RFC 4648 base64 with padding. \<^verbatim>\<open>new Buffer(s, 'base64')\<close>
  reads it back: groups of four characters of the alphabet, the last group perhaps
  padded with one or two \<^verbatim>\<open>=\<close>.
\<close>

definition base64_chars :: jsstring where
  "base64_chars = js ''ABCDEFGHIJKLMNOPQRSTUVWXYZabcdefghijklmnopqrstuvwxyz0123456789+/''"

definition base64_char :: "nat \<Rightarrow> cunit" where
  "base64_char k = base64_chars ! k"

definition unbase64 :: "cunit \<Rightarrow> nat option" where
  "unbase64 c =
     (if 0x41 \<le> c \<and> c \<le> 0x5A then Some (unat c - 65)
      else if 0x61 \<le> c \<and> c \<le> 0x7A then Some (unat c - 71)
      else if 0x30 \<le> c \<and> c \<le> 0x39 then Some (unat c + 4)
      else if c = 0x2B then Some 62
      else if c = 0x2F then Some 63
      else None)"

definition pad :: cunit where
  "pad = 0x3D"

fun base64_encode :: "bytes \<Rightarrow> jsstring" where
  "base64_encode (a # b # c # rest) =
     (let n = unat a * 65536 + unat b * 256 + unat c
      in [base64_char (n div 262144), base64_char (n div 4096 mod 64),
          base64_char (n div 64 mod 64), base64_char (n mod 64)] @ base64_encode rest)"
| "base64_encode [a, b] =
     (let n = unat a * 1024 + unat b * 4
      in [base64_char (n div 4096), base64_char (n div 64 mod 64), base64_char (n mod 64), pad])"
| "base64_encode [a] =
     (let n = unat a * 16
      in [base64_char (n div 64), base64_char (n mod 64), pad, pad])"
| "base64_encode [] = []"

fun base64_group :: "cunit \<Rightarrow> cunit \<Rightarrow> cunit \<Rightarrow> cunit \<Rightarrow> bool \<Rightarrow> bytes option" where
  "base64_group a b c d final =
     (case (unbase64 a, unbase64 b) of
        (Some x, Some y) \<Rightarrow>
          (case (unbase64 c, unbase64 d) of
             (Some z, Some w) \<Rightarrow>
               (let n = x * 262144 + y * 4096 + z * 64 + w
                in Some [of_nat (n div 65536), of_nat (n div 256 mod 256), of_nat (n mod 256)])
           | (Some z, None) \<Rightarrow>
               if final \<and> d = pad
               then (let n = x * 4096 + y * 64 + z
                     in Some [of_nat (n div 1024), of_nat (n div 4 mod 256)])
               else None
           | (None, _) \<Rightarrow>
               if final \<and> c = pad \<and> d = pad then Some [of_nat ((x * 64 + y) div 16)]
               else None)
      | _ \<Rightarrow> None)"

fun base64_decode :: "jsstring \<Rightarrow> bytes option" where
  "base64_decode [] = Some []"
| "base64_decode [a, b, c, d] = base64_group a b c d True"
| "base64_decode (a # b # c # d # rest) =
     (case base64_group a b c d False of
        None \<Rightarrow> None
      | Some g \<Rightarrow> map_option ((@) g) (base64_decode rest))"
| "base64_decode _ = None"

definition toBase64 :: "bytes \<Rightarrow> jsstring" where
  "toBase64 buf = base64_encode buf"

definition fromBase64 :: "platform \<Rightarrow> jsstring \<Rightarrow> bytes" where
  "fromBase64 pf s = (case base64_decode s of Some buf \<Rightarrow> buf | None \<Rightarrow> base64_other pf s)"

subsection \<open>UTF-8\<close>

text \<open>
  \<^verbatim>\<open>new Buffer(s, 'utf8')\<close> writes the code points of \<open>s\<close> (a high surrogate followed by a
  low one is one code point) in one to four bytes each; \<^verbatim>\<open>buf.toString('utf8')\<close> reads
  well-formed UTF-8 back (shortest form only, no surrogate code points, at most
  \<open>0x10FFFF\<close>).
\<close>

definition is_high :: "cunit \<Rightarrow> bool" where
  "is_high c = (0xD800 \<le> c \<and> c < 0xDC00)"

definition is_low :: "cunit \<Rightarrow> bool" where
  "is_low c = (0xDC00 \<le> c \<and> c < 0xE000)"

definition utf8_bytes :: "nat \<Rightarrow> bytes" where
  "utf8_bytes cp =
     (if cp < 0x80 then [of_nat cp]
      else if cp < 0x800 then [of_nat (0xC0 + cp div 64), of_nat (0x80 + cp mod 64)]
      else if cp < 0x10000 then
        [of_nat (0xE0 + cp div 4096), of_nat (0x80 + cp div 64 mod 64), of_nat (0x80 + cp mod 64)]
      else
        [of_nat (0xF0 + cp div 262144), of_nat (0x80 + cp div 4096 mod 64),
         of_nat (0x80 + cp div 64 mod 64), of_nat (0x80 + cp mod 64)])"

fun utf8_encode :: "jsstring \<Rightarrow> bytes option" where
  "utf8_encode [] = Some []"
| "utf8_encode [c] = (if is_high c \<or> is_low c then None else Some (utf8_bytes (unat c)))"
| "utf8_encode (c # d # cs) =
     (if is_high c then
        (if is_low d
         then map_option
                ((@) (utf8_bytes (0x10000 + (unat c - 0xD800) * 1024 + (unat d - 0xDC00))))
                (utf8_encode cs)
         else None)
      else if is_low c then None
      else map_option ((@) (utf8_bytes (unat c))) (utf8_encode (d # cs)))"

definition is_cont :: "byte \<Rightarrow> bool" where
  "is_cont b = (0x80 \<le> b \<and> b \<le> 0xBF)"

definition code_units :: "nat \<Rightarrow> jsstring" where
  "code_units cp =
     (if cp < 0x10000 then [of_nat cp]
      else [of_nat (0xD800 + (cp - 0x10000) div 1024), of_nat (0xDC00 + (cp - 0x10000) mod 1024)])"

fun utf8_decode :: "bytes \<Rightarrow> jsstring option" where
  "utf8_decode [] = Some []"
| "utf8_decode (b # bs) =
     (if b < 0x80 then map_option ((@) [ucast b]) (utf8_decode bs)
      else if 0xC2 \<le> b \<and> b \<le> 0xDF then
        (case bs of
           b1 # r \<Rightarrow>
             if is_cont b1
             then map_option ((@) (code_units ((unat b - 0xC0) * 64 + (unat b1 - 0x80))))
                    (utf8_decode r)
             else None
         | _ \<Rightarrow> None)
      else if 0xE0 \<le> b \<and> b \<le> 0xEF then
        (case bs of
           b1 # b2 # r \<Rightarrow>
             (let cp = (unat b - 0xE0) * 4096 + (unat b1 - 0x80) * 64 + (unat b2 - 0x80)
              in if is_cont b1 \<and> is_cont b2 \<and> 0x800 \<le> cp \<and> \<not> (0xD800 \<le> cp \<and> cp < 0xE000)
                 then map_option ((@) (code_units cp)) (utf8_decode r)
                 else None)
         | _ \<Rightarrow> None)
      else if 0xF0 \<le> b \<and> b \<le> 0xF4 then
        (case bs of
           b1 # b2 # b3 # r \<Rightarrow>
             (let cp = (unat b - 0xF0) * 262144 + (unat b1 - 0x80) * 4096
                       + (unat b2 - 0x80) * 64 + (unat b3 - 0x80)
              in if is_cont b1 \<and> is_cont b2 \<and> is_cont b3 \<and> 0x10000 \<le> cp \<and> cp \<le> 0x10FFFF
                 then map_option ((@) (code_units cp)) (utf8_decode r)
                 else None)
         | _ \<Rightarrow> None)
      else None)"

definition utf8_write :: "platform \<Rightarrow> jsstring \<Rightarrow> bytes" where
  "utf8_write pf s = (case utf8_encode s of Some buf \<Rightarrow> buf | None \<Rightarrow> utf8_write_other pf s)"

definition utf8_read :: "platform \<Rightarrow> bytes \<Rightarrow> jsstring" where
  "utf8_read pf buf = (case utf8_decode buf of Some s \<Rightarrow> s | None \<Rightarrow> utf8_read_other pf buf)"

section \<open>Packets\<close>

text \<open>
  A packet is an object with a \<^verbatim>\<open>type\<close> and a \<^verbatim>\<open>data\<close> field. The type is one of the seven
  type names, or \<^verbatim>\<open>'error'\<close> in the premade error packet, or undefined (\<open>None\<close>) in what the
  binary and base64 decoders return for a code that is not in the list. The data is
  undefined, a string, a Node buffer or an \<^verbatim>\<open>ArrayBuffer\<close> (what the specification calls
  the array-buffer view: it is what the decoders deliver under the \<^verbatim>\<open>'arraybuffer'\<close>
  preference). In the Node the code is written for (it allocates with \<^verbatim>\<open>new Buffer\<close>) none
  of these has a \<^verbatim>\<open>buffer\<close> property, so \<^verbatim>\<open>packet.data.buffer || packet.data\<close> in
  \<^verbatim>\<open>encodePacket\<close> is the data itself.
\<close>

datatype packet_type = Open | Close | Ping | Pong | Message | Upgrade | Noop | Error

datatype jsdata = Undefined | Str jsstring | Buffer bytes | ArrayBuffer bytes

record packet =
  type :: "packet_type option"
  data :: jsdata

text \<open>The table \<^verbatim>\<open>packets\<close>: \<^verbatim>\<open>packets[name]\<close> is the code, undefined for any other name.\<close>

fun packets :: "packet_type \<Rightarrow> nat option" where
  "packets Open = Some 0"
| "packets Close = Some 1"
| "packets Ping = Some 2"
| "packets Pong = Some 3"
| "packets Message = Some 4"
| "packets Upgrade = Some 5"
| "packets Noop = Some 6"
| "packets Error = None"

text \<open>
  Modelled from the spec: \<^verbatim>\<open>packetslist = keys(packets)\<close>, where the module \<^verbatim>\<open>./keys\<close> is not
  among the sources. The specification makes it the ordered list of the seven names, the
  code being the index (section 4.1).
\<close>

definition packetslist :: "packet_type list" where
  "packetslist = [Open, Close, Ping, Pong, Message, Upgrade, Noop]"

text \<open>
  \<^verbatim>\<open>packetslist[k]\<close> for a number, for a byte read from a buffer (undefined when the buffer
  is empty) and for the result of \<^verbatim>\<open>charAt\<close> (a string of at most one code unit, which
  names an element only when it is a digit).
\<close>

definition packetslist_at :: "nat \<Rightarrow> packet_type option" where
  "packetslist_at k = (if k < length packetslist then Some (packetslist ! k) else None)"

definition packetslist_byte :: "byte option \<Rightarrow> packet_type option" where
  "packetslist_byte b = (case b of None \<Rightarrow> None | Some k \<Rightarrow> packetslist_at (unat k))"

definition packetslist_key :: "jsstring \<Rightarrow> packet_type option" where
  "packetslist_key s =
     (case s of [c] \<Rightarrow> if is_digit c then packetslist_at (digit_value c) else None | _ \<Rightarrow> None)"

text \<open>\<^verbatim>\<open>packets[packet.type]\<close>, and what \<^verbatim>\<open>+\<close> with a string and a buffer store make of it.\<close>

definition packets_of :: "packet_type option \<Rightarrow> nat option" where
  "packets_of t = (case t of None \<Rightarrow> None | Some name \<Rightarrow> packets name)"

definition code_string :: "nat option \<Rightarrow> jsstring" where
  "code_string k = (case k of None \<Rightarrow> js ''undefined'' | Some n \<Rightarrow> decimal n)"

definition code_byte :: "nat option \<Rightarrow> byte" where
  "code_byte k = (case k of None \<Rightarrow> 0 | Some n \<Rightarrow> store (num n))"

text \<open>The premade error packet.\<close>

definition err :: packet where
  "err = \<lparr>type = Some Error, data = Str (js ''parser error'')\<rparr>"

text \<open>What an encoder hands to its callback, and what a decoder is given: a string or a buffer.\<close>

datatype wire = WString jsstring | WBuffer bytes

definition wire_length :: "wire \<Rightarrow> nat" where
  "wire_length w = (case w of WString s \<Rightarrow> length s | WBuffer b \<Rightarrow> length b)"

section \<open>Encoding a packet\<close>

text \<open>
  The encoders pass their result to the callback and do nothing else with it; the model
  returns what the callback receives, together with the packet as the call leaves it
  (\<^verbatim>\<open>encodeBase64Packet\<close> assigns to \<^verbatim>\<open>packet.data\<close>). \<open>supportsBinary\<close> is \<open>None\<close> when the
  caller passed the callback in its place, which the code turns into \<^verbatim>\<open>null\<close>.
\<close>

text \<open>
  \<^verbatim>\<open>packet.data.toString('base64')\<close>: base64 for a buffer; a string ignores the argument and
  is itself; undefined has no properties.
\<close>

definition data_toString_base64 :: "jsdata \<Rightarrow> exn + jsstring" where
  "data_toString_base64 d =
     (case d of
        Buffer buf \<Rightarrow> Inr (toBase64 buf)
      | Str s \<Rightarrow> Inr s
      | ArrayBuffer a \<Rightarrow> Inr (js ''[object ArrayBuffer]'')
      | Undefined \<Rightarrow> Inl TypeError)"

definition encodeBase64Packet :: "packet \<Rightarrow> exn + (jsstring \<times> packet)" where
  "encodeBase64Packet packet =
     (let packet1 =
            (case data packet of
               ArrayBuffer a \<Rightarrow>
                 \<comment> \<open>\<^verbatim>\<open>buf[i] = packet.data[i]\<close>: an \<^verbatim>\<open>ArrayBuffer\<close> has no indexed elements\<close>
                 packet\<lparr>data := Buffer (map (\<lambda>i. store NaN) [0 ..< length a])\<rparr>
             | _ \<Rightarrow> packet);
          message = js ''b'' @ code_string (packets_of (type packet1))
      in case data_toString_base64 (data packet1) of
           Inl e \<Rightarrow> Inl e
         | Inr s \<Rightarrow> Inr (message @ s, packet1))"

definition truthy :: "bool option \<Rightarrow> bool" where
  "truthy supportsBinary = (supportsBinary = Some True)"

definition encodePacket :: "packet \<Rightarrow> bool option \<Rightarrow> exn + (wire \<times> packet)" where
  "encodePacket packet supportsBinary =
     (case data packet of
        Buffer buf \<Rightarrow>
          if \<not> truthy supportsBinary then
            (case encodeBase64Packet packet of
               Inl e \<Rightarrow> Inl e
             | Inr (message, packet1) \<Rightarrow> Inr (WString message, packet1))
          else Inr (WBuffer ([code_byte (packets_of (type packet))] @ buf), packet)
      | ArrayBuffer a \<Rightarrow>
          if \<not> truthy supportsBinary then
            (case encodeBase64Packet packet of
               Inl e \<Rightarrow> Inl e
             | Inr (message, packet1) \<Rightarrow> Inr (WString message, packet1))
          else Inr (WBuffer (code_byte (packets_of (type packet)) # a), packet)
      | Str s \<Rightarrow> Inr (WString (code_string (packets_of (type packet)) @ s), packet)
      | Undefined \<Rightarrow> Inr (WString (code_string (packets_of (type packet))), packet))"

section \<open>Decoding a packet\<close>

text \<open>
  \<open>binaryType\<close> is \<open>None\<close> when it is left out or \<^verbatim>\<open>null\<close>. The input is \<open>None\<close> when it is
  undefined: the code sends that down the string path, where \<^verbatim>\<open>data.charAt\<close> fails.
\<close>

definition arraybuffer :: "jsstring option \<Rightarrow> bool" where
  "arraybuffer binaryType = (binaryType = Some (js ''arraybuffer''))"

definition decodeBase64Packet :: "platform \<Rightarrow> jsstring \<Rightarrow> jsstring option \<Rightarrow> packet" where
  "decodeBase64Packet pf msg binaryType =
     (let t = packetslist_key (charAt msg 0);
          buf = fromBase64 pf (substring msg 1)
      in if arraybuffer binaryType then \<lparr>type = t, data = ArrayBuffer buf\<rparr>
         else \<lparr>type = t, data = Buffer buf\<rparr>)"

definition decodePacket :: "platform \<Rightarrow> wire option \<Rightarrow> jsstring option \<Rightarrow> exn + packet" where
  "decodePacket pf input binaryType =
     (case input of
        None \<Rightarrow> Inl TypeError
      | Some (WString s) \<Rightarrow>
          if charAt s 0 = js ''b'' then Inr (decodeBase64Packet pf (substring s 1) binaryType)
          else
            (let t = charAt s 0
             in if \<not> num_eq (Number pf t) (Number pf t) \<or> packetslist_key t = None then Inr err
                else if length s > 1
                  then Inr \<lparr>type = packetslist_key t, data = Str (substring s 1)\<rparr>
                  else Inr \<lparr>type = packetslist_key t, data = Undefined\<rparr>)
      | Some (WBuffer buf) \<Rightarrow>
          if arraybuffer binaryType then
            \<comment> \<open>\<^verbatim>\<open>new Uint8Array(data.length - 1)\<close> refuses a negative length\<close>
            (if length buf = 0 then Inl RangeError
             else Inr \<lparr>type = packetslist_byte (buffer_at buf 0), data = ArrayBuffer (drop 1 buf)\<rparr>)
          else Inr \<lparr>type = packetslist_byte (buffer_at buf 0),
                    data = Buffer (buffer_slice_from buf (num 1))\<rparr>)"

section \<open>Encoding a payload\<close>

text \<open>
  \<^verbatim>\<open>map(ary, doOne, done)\<close> calls \<open>doOne\<close> on each element in order; each call here completes
  before it returns, so \<open>done\<close> receives the results in order after the last one. The
  elements come back as the calls leave them.
\<close>

fun map_ary :: "(packet \<Rightarrow> exn + ('a \<times> packet)) \<Rightarrow> packet list \<Rightarrow> exn + ('a list \<times> packet list)" where
  "map_ary doOne [] = Inr ([], [])"
| "map_ary doOne (el # ary) =
     (case doOne el of
        Inl e \<Rightarrow> Inl e
      | Inr (msg, el1) \<Rightarrow>
          (case map_ary doOne ary of
             Inl e \<Rightarrow> Inl e
           | Inr (result, ary1) \<Rightarrow> Inr (msg # result, el1 # ary1)))"

text \<open>\<^verbatim>\<open>'' + message\<close>: a string is itself, a buffer is read as UTF-8.\<close>

definition wire_string :: "platform \<Rightarrow> wire \<Rightarrow> jsstring" where
  "wire_string pf w = (case w of WString s \<Rightarrow> s | WBuffer b \<Rightarrow> utf8_read pf b)"

definition setLengthHeader :: "platform \<Rightarrow> wire \<Rightarrow> jsstring" where
  "setLengthHeader pf message = decimal (wire_length message) @ js '':'' @ wire_string pf message"

text \<open>
  The binary payload. \<^verbatim>\<open>encodeOne\<close> calls \<^verbatim>\<open>encodePacket(p, function ...)\<close>: the callback
  stands where \<open>supportsBinary\<close> is expected, which is the \<open>None\<close> of the model.
\<close>

definition encodeOne_binary :: "platform \<Rightarrow> packet \<Rightarrow> exn + (bytes \<times> packet)" where
  "encodeOne_binary pf p =
     (case encodePacket p None of
        Inl e \<Rightarrow> Inl e
      | Inr (packet, p1) \<Rightarrow>
          (let encodingLength = decimal (wire_length packet);
               digits = map (\<lambda>i. store (parseInt pf (charAt encodingLength i)))
                          [0 ..< length encodingLength]
           in case packet of
                WString s \<Rightarrow> Inr ([0] @ digits @ [255] @ utf8_write pf s, p1)
              | WBuffer b \<Rightarrow> Inr ([1] @ digits @ [255] @ b, p1)))"

definition encodePayloadAsBinary :: "platform \<Rightarrow> packet list \<Rightarrow> exn + (wire \<times> packet list)" where
  "encodePayloadAsBinary pf packets_in =
     (if length packets_in = 0 then Inr (WBuffer [], packets_in)
      else case map_ary (encodeOne_binary pf) packets_in of
             Inl e \<Rightarrow> Inl e
           | Inr (results, packets_out) \<Rightarrow> Inr (WBuffer (concat results), packets_out))"

definition encodeOne :: "platform \<Rightarrow> bool option \<Rightarrow> packet \<Rightarrow> exn + (jsstring \<times> packet)" where
  "encodeOne pf supportsBinary p =
     (case encodePacket p supportsBinary of
        Inl e \<Rightarrow> Inl e
      | Inr (message, p1) \<Rightarrow> Inr (setLengthHeader pf message, p1))"

definition encodePayload :: "platform \<Rightarrow> packet list \<Rightarrow> bool option \<Rightarrow> exn + (wire \<times> packet list)" where
  "encodePayload pf packets_in supportsBinary =
     (if truthy supportsBinary then encodePayloadAsBinary pf packets_in
      else if length packets_in = 0 then Inr (WString (js ''0:''), packets_in)
      else case map_ary (encodeOne pf supportsBinary) packets_in of
             Inl e \<Rightarrow> Inl e
           | Inr (results, packets_out) \<Rightarrow> Inr (WString (concat results), packets_out))"

section \<open>Decoding a payload\<close>

text \<open>
  A payload decoder reports through its callback, so the model returns the calls it makes,
  in order: the packet, the index and the total of each. The callback is any function of
  what it has been called with so far and of the present call; all the decoder looks at is
  whether it returns \<^verbatim>\<open>false\<close>. A run ends by returning or by an exception, after the calls
  made until then.
\<close>

type_synonym call = "packet \<times> nat \<times> nat"

datatype ret = RetFalse | RetOther

type_synonym callback = "call list \<Rightarrow> call \<Rightarrow> ret"

datatype outcome = Returned "call list" | Threw exn "call list"

text \<open>
  \<^verbatim>\<open>err.type == packet.type && err.data == packet.data\<close>. Compared with a string, a buffer is
  its UTF-8 text and an \<^verbatim>\<open>ArrayBuffer\<close> is \<^verbatim>\<open>'[object ArrayBuffer]'\<close>.
\<close>

definition is_err :: "platform \<Rightarrow> packet \<Rightarrow> bool" where
  "is_err pf packet =
     (type packet = type err \<and>
      (case data packet of
         Undefined \<Rightarrow> False
       | Str s \<Rightarrow> Str s = data err
       | Buffer b \<Rightarrow> Str (utf8_read pf b) = data err
       | ArrayBuffer a \<Rightarrow> Str (js ''[object ArrayBuffer]'') = data err))"

text \<open>
  The \<^verbatim>\<open>for\<close> loop of \<^verbatim>\<open>decodePayload\<close>, with its variables \<open>i\<close> and \<open>length\<close> (here \<open>len\<close>).
  Past its two comparisons with \<open>len\<close> the number \<open>n\<close> is the length of \<open>msg\<close>, so \<open>i + n\<close> is
  a sum of two natural numbers. The loop's own \<^verbatim>\<open>i++\<close> follows \<^verbatim>\<open>i += n\<close>.
\<close>

function decodePayload_loop ::
  "platform \<Rightarrow> jsstring \<Rightarrow> jsstring option \<Rightarrow> callback \<Rightarrow> nat \<Rightarrow> jsstring \<Rightarrow> call list \<Rightarrow> outcome" where
  "decodePayload_loop pf data_in binaryType callback i len calls =
     (if i < length data_in then
        (let chr = charAt data_in i
         in if js '':'' \<noteq> chr
            then decodePayload_loop pf data_in binaryType callback (i + 1) (len @ chr) calls
            else
              (let n = Number pf len
               in if [] = len \<or> \<not> num_eq (Number pf len) n
                  then Returned (calls @ [(err, 0, 1)])
                  else
                    (let msg = substr data_in (i + 1) n
                     in if \<not> num_eq (Number pf len) (num (length msg))
                        then Returned (calls @ [(err, 0, 1)])
                        else if length msg \<noteq> 0 then
                          (case decodePacket pf (Some (WString msg)) binaryType of
                             Inl e \<Rightarrow> Threw e calls
                           | Inr packet \<Rightarrow>
                               if is_err pf packet then Returned (calls @ [(err, 0, 1)])
                               else
                                 (let c = (packet, i + length msg, length data_in)
                                  in if callback calls c = RetFalse then Returned (calls @ [c])
                                     else decodePayload_loop pf data_in binaryType callback
                                            (i + length msg + 1) [] (calls @ [c])))
                        else decodePayload_loop pf data_in binaryType callback
                               (i + length msg + 1) [] calls)))
      else if len \<noteq> [] then Returned (calls @ [(err, 0, 1)])
      else Returned calls)"
  by pat_completeness auto
termination
  by (relation "measure (\<lambda>(pf, data_in, binaryType, callback, i, len, calls). length data_in - i)")
     auto

declare decodePayload_loop.simps [simp del]

text \<open>
  The inner loop of \<^verbatim>\<open>decodePayloadAsBinary\<close>: \<^verbatim>\<open>for (var i = 1; ; i++)\<close> leaves only at a byte
  255. Past the end of the buffer \<^verbatim>\<open>bufferTail[i]\<close> is undefined, which is not 255 and adds
  the text \<^verbatim>\<open>undefined\<close> to \<open>strLen\<close>; the loop has no other exit, so it may not return.
\<close>

definition element_string :: "byte option \<Rightarrow> jsstring" where
  "element_string b = (case b of None \<Rightarrow> js ''undefined'' | Some k \<Rightarrow> decimal (unat k))"

partial_function (option) decodePayloadAsBinary_scan :: "bytes \<Rightarrow> nat \<Rightarrow> jsstring \<Rightarrow> jsstring option" where
  [code]: "decodePayloadAsBinary_scan bufferTail i strLen =
     (if buffer_at bufferTail i = Some 255 then Some strLen
      else decodePayloadAsBinary_scan bufferTail (i + 1)
             (strLen @ element_string (buffer_at bufferTail i)))"

text \<open>The \<^verbatim>\<open>while\<close> loop: \<open>None\<close> when the inner loop does not return.\<close>

function decodePayloadAsBinary_loop :: "platform \<Rightarrow> bytes \<Rightarrow> wire list \<Rightarrow> wire list option" where
  "decodePayloadAsBinary_loop pf bufferTail buffers =
     (if length bufferTail > 0 then
        (case decodePayloadAsBinary_scan bufferTail 1 [] of
           None \<Rightarrow> None
         | Some strLen \<Rightarrow>
             (let isString = (buffer_at bufferTail 0 = Some 0);
                  bufferTail1 = buffer_slice_from bufferTail (num (length strLen + 1));
                  msgLength = parseInt pf strLen;
                  msg = buffer_slice bufferTail1 (num 1) (num_add msgLength (num 1));
                  buffer = (if isString then WString (utf8_read pf msg) else WBuffer msg)
              in decodePayloadAsBinary_loop pf (buffer_slice_from bufferTail1 (num_add msgLength (num 1)))
                   (buffers @ [buffer])))
      else Some buffers)"
  by pat_completeness auto
termination
  by (relation "measure (\<lambda>(pf, bufferTail, buffers). length bufferTail)")
     (auto simp: buffer_slice_from_def clamp_def num_def split: jsnum.splits)

declare decodePayloadAsBinary_loop.simps [simp del]

text \<open>\<^verbatim>\<open>buffers.forEach\<close>: one call per buffer, with its index and the number of buffers.\<close>

fun forEach_buffer :: "platform \<Rightarrow> jsstring option \<Rightarrow> nat \<Rightarrow> wire list \<Rightarrow> nat \<Rightarrow> call list \<Rightarrow> outcome" where
  "forEach_buffer pf binaryType ntotal [] i calls = Returned calls"
| "forEach_buffer pf binaryType ntotal (buffer # rest) i calls =
     (case decodePacket pf (Some buffer) binaryType of
        Inl e \<Rightarrow> Threw e calls
      | Inr packet \<Rightarrow> forEach_buffer pf binaryType ntotal rest (i + 1) (calls @ [(packet, i, ntotal)]))"

definition decodePayloadAsBinary :: "platform \<Rightarrow> bytes \<Rightarrow> jsstring option \<Rightarrow> callback \<Rightarrow> outcome option" where
  "decodePayloadAsBinary pf data_in binaryType callback =
     (case decodePayloadAsBinary_loop pf data_in [] of
        None \<Rightarrow> None
      | Some buffers \<Rightarrow> Some (forEach_buffer pf binaryType (length buffers) buffers 0 []))"

definition decodePayload :: "platform \<Rightarrow> wire \<Rightarrow> jsstring option \<Rightarrow> callback \<Rightarrow> outcome option" where
  "decodePayload pf data_in binaryType callback =
     (case data_in of
        WBuffer b \<Rightarrow> decodePayloadAsBinary pf b binaryType callback
      | WString s \<Rightarrow>
          if s = [] then Some (Returned [(err, 0, 1)])
          else Some (decodePayload_loop pf s binaryType callback 0 [] []))"

section \<open>Reference points of the statements\<close>

text \<open>
  A platform for the concrete runs below: on irregular input its functions answer
  not-a-number and the empty value. No run below reaches them.
\<close>

definition plain_platform :: platform where
  "plain_platform =
     \<lparr>ToNumber_other = (\<lambda>s. NaN), parseInt_other = (\<lambda>s. NaN), base64_other = (\<lambda>s. []),
      utf8_write_other = (\<lambda>s. []), utf8_read_other = (\<lambda>b. [])\<rparr>"

text \<open>A callback that never returns \<^verbatim>\<open>false\<close>.\<close>

definition keep_going :: callback where
  "keep_going calls c = RetOther"

text \<open>
  What a packet is after an encoder has run on it. The type is never touched. The data is
  touched in one case: an \<^verbatim>\<open>ArrayBuffer\<close> that goes through \<^verbatim>\<open>encodeBase64Packet\<close> (the
  capability is not set) is a Node buffer of the same length afterwards.
\<close>

definition packet_after :: "bool option \<Rightarrow> packet \<Rightarrow> packet \<Rightarrow> bool" where
  "packet_after supportsBinary p p1 =
     (type p1 = type p \<and>
      (case data p of
         ArrayBuffer a \<Rightarrow>
           if truthy supportsBinary then data p1 = data p
           else (case data p1 of Buffer b \<Rightarrow> length b = length a | _ \<Rightarrow> False)
       | _ \<Rightarrow> data p1 = data p))"

text \<open>
  The text payload as the decoder reads it: segments, each a length prefix, a colon and a
  body. \<open>natural v\<close> is the natural number a JavaScript number is, if it is one.
\<close>

definition colon :: cunit where
  "colon = 0x3A"

definition natural :: "jsnum \<Rightarrow> nat option" where
  "natural v =
     (case v of
        Fin q \<Rightarrow> if 0 \<le> q \<and> of_int \<lfloor>q\<rfloor> = q then Some (nat \<lfloor>q\<rfloor>) else None
      | _ \<Rightarrow> None)"

type_synonym segment = "jsstring \<times> jsstring"

definition segment_text :: "segment \<Rightarrow> jsstring" where
  "segment_text sg = fst sg @ js '':'' @ snd sg"

text \<open>The packet a body delivers: none when \<^verbatim>\<open>decodePacket\<close> answers the error packet.\<close>

definition body_packet :: "platform \<Rightarrow> jsstring option \<Rightarrow> jsstring \<Rightarrow> packet option" where
  "body_packet pf bt body =
     (case decodePacket pf (Some (WString body)) bt of
        Inr p \<Rightarrow> if is_err pf p then None else Some p
      | Inl e \<Rightarrow> None)"

text \<open>
  A segment is well formed when its prefix is not empty, has no colon and is, as a number,
  the length of its body, and the body is empty or decodes to a packet.
\<close>

definition well_formed :: "platform \<Rightarrow> jsstring option \<Rightarrow> segment \<Rightarrow> bool" where
  "well_formed pf bt sg =
     (fst sg \<noteq> [] \<and> colon \<notin> set (fst sg) \<and>
      natural (Number pf (fst sg)) = Some (length (snd sg)) \<and>
      (snd sg = [] \<or> body_packet pf bt (snd sg) \<noteq> None))"

text \<open>
  What is left of a payload starts with a malformed segment when: there is a colon, and
  the prefix before it is empty, or is not a natural number, or announces more characters
  than follow the colon, or the body it announces decodes to the error packet; or there
  is no colon and something is left (a prefix that no colon ends).
\<close>

definition malformed :: "platform \<Rightarrow> jsstring option \<Rightarrow> jsstring \<Rightarrow> bool" where
  "malformed pf bt rest =
     (if colon \<in> set rest then
        (let len = takeWhile (\<lambda>c. c \<noteq> colon) rest;
             tail = drop (length len + 1) rest
         in len = [] \<or>
            (case natural (Number pf len) of
               None \<Rightarrow> True
             | Some n \<Rightarrow> length tail < n \<or> (0 < n \<and> body_packet pf bt (take n tail) = None)))
      else rest \<noteq> [])"

text \<open>
  The calls the well-formed segments of a payload of \<open>ntotal\<close> characters get, the first
  segment starting at \<open>offset\<close>: one per segment with a body, carrying the position of the
  body's last character and \<open>ntotal\<close>.
\<close>

fun segment_calls :: "platform \<Rightarrow> jsstring option \<Rightarrow> nat \<Rightarrow> nat \<Rightarrow> segment list \<Rightarrow> call list" where
  "segment_calls pf bt ntotal offset [] = []"
| "segment_calls pf bt ntotal offset (sg # segs) =
     (case (if snd sg = [] then None else body_packet pf bt (snd sg)) of
        None \<Rightarrow> []
      | Some p \<Rightarrow> [(p, offset + length (fst sg) + length (snd sg), ntotal)])
     @ segment_calls pf bt ntotal (offset + length (segment_text sg)) segs"













section \<open>Facts about decimal digits\<close>

lemma unat_digit: "d < 10 \<Longrightarrow> unat (digit d) = 48 + d"
  unfolding digit_def by (subst unat_of_nat) simp

lemma digit_value_digit: "d < 10 \<Longrightarrow> digit_value (digit d) = d"
  by (simp add: digit_value_def unat_digit)

lemma is_digit_digit: "d < 10 \<Longrightarrow> is_digit (digit d)"
  unfolding is_digit_def
  by (simp add: word_le_nat_alt unat_digit)

lemma decimal_digits: "list_all is_digit (decimal n)"
proof (induction n rule: decimal.induct)
  case (1 n)
  show ?case
  proof (cases "n < 10")
    case True
    then show ?thesis by (simp add: decimal.simps[of n] is_digit_digit)
  next
    case False
    with 1 show ?thesis by (simp add: decimal.simps[of n] is_digit_digit)
  qed
qed

lemma decimal_not_Nil: "decimal n \<noteq> []"
  by (subst decimal.simps) simp

lemma digits_value_snoc: "digits_value (s @ [c]) = 10 * digits_value s + digit_value c"
  by (simp add: digits_value_def)

lemma digits_value_decimal: "digits_value (decimal n) = n"
proof (induction n rule: decimal.induct)
  case (1 n)
  show ?case
  proof (cases "n < 10")
    case True
    then show ?thesis by (simp add: decimal.simps[of n] digits_value_def digit_value_digit)
  next
    case False
    with 1 show ?thesis
      by (simp add: decimal.simps[of n] digits_value_snoc digit_value_digit)
  qed
qed

lemma Number_decimal: "Number pf (decimal n) = num n"
  by (simp add: Number_def decimal_not_Nil decimal_digits digits_value_decimal)

lemma parseInt_decimal: "parseInt pf (decimal n) = num n"
  by (simp add: parseInt_def decimal_not_Nil decimal_digits digits_value_decimal)




section \<open>The inner loop of the binary payload decoder\<close>

lemma scan_found:
  "buffer_at b i = Some 255 \<Longrightarrow> decodePayloadAsBinary_scan b i s = Some s"
  by (subst decodePayloadAsBinary_scan.simps) simp

lemma scan_next:
  "buffer_at b i \<noteq> Some 255 \<Longrightarrow>
     decodePayloadAsBinary_scan b i s
       = decodePayloadAsBinary_scan b (i + 1) (s @ element_string (buffer_at b i))"
  by (subst decodePayloadAsBinary_scan.simps) simp

text \<open>The loop returns only at a byte 255.\<close>

lemma scan_Some_255:
  assumes "decodePayloadAsBinary_scan b i s = Some r"
  shows "\<exists>j\<ge>i. buffer_at b j = Some 255"
proof (rule decodePayloadAsBinary_scan.raw_induct
         [where P = "\<lambda>b i s r. \<exists>j\<ge>i. buffer_at b j = Some 255", OF _ assms])
  fix f :: "bytes \<Rightarrow> nat \<Rightarrow> jsstring \<Rightarrow> jsstring option" and b i s r
  assume IH: "\<And>b i s r. f b i s = Some r \<Longrightarrow> \<exists>j\<ge>i. buffer_at b j = Some 255"
    and step: "(if buffer_at b i = Some 255 then Some s
                else f b (i + 1) (s @ element_string (buffer_at b i))) = Some r"
  show "\<exists>j\<ge>i. buffer_at b j = Some 255"
  proof (cases "buffer_at b i = Some 255")
    case True
    then show ?thesis by blast
  next
    case False
    with step have "f b (i + 1) (s @ element_string (buffer_at b i)) = Some r" by simp
    from IH[OF this] obtain j where "j \<ge> i + 1" "buffer_at b j = Some 255" by blast
    then show ?thesis by (intro exI[of _ j]) simp
  qed
qed

lemma scan_None:
  assumes "\<forall>j\<ge>i. buffer_at b j \<noteq> Some 255"
  shows "decodePayloadAsBinary_scan b i s = None"
proof (cases "decodePayloadAsBinary_scan b i s")
  case None
  then show ?thesis .
next
  case (Some r)
  from scan_Some_255[OF this] assms show ?thesis by blast
qed

text \<open>One turn of the \<^verbatim>\<open>while\<close> loop.\<close>

lemma loop_diverges:
  "bufferTail \<noteq> [] \<Longrightarrow> decodePayloadAsBinary_scan bufferTail 1 [] = None \<Longrightarrow>
     decodePayloadAsBinary_loop pf bufferTail buffers = None"
  by (subst decodePayloadAsBinary_loop.simps) simp

lemma loop_step:
  "bufferTail \<noteq> [] \<Longrightarrow> decodePayloadAsBinary_scan bufferTail 1 [] = Some strLen \<Longrightarrow>
     decodePayloadAsBinary_loop pf bufferTail buffers =
       decodePayloadAsBinary_loop pf
         (buffer_slice_from (buffer_slice_from bufferTail (num (length strLen + 1)))
            (num_add (parseInt pf strLen) (num 1)))
         (buffers @
           [if buffer_at bufferTail 0 = Some 0
            then WString (utf8_read pf
                   (buffer_slice (buffer_slice_from bufferTail (num (length strLen + 1))) (num 1)
                      (num_add (parseInt pf strLen) (num 1))))
            else WBuffer (buffer_slice (buffer_slice_from bufferTail (num (length strLen + 1))) (num 1)
                      (num_add (parseInt pf strLen) (num 1)))])"
  by (subst decodePayloadAsBinary_loop.simps) (simp add: Let_def)


section \<open>The binary payload encoder frames text only\<close>






section \<open>Where the code leaves the specification\<close>

text \<open>
  C6. The codec raises on an input its own test admits: \<^verbatim>\<open>decodePacket\<close> sends an undefined
  input down the string path (\<^verbatim>\<open>typeof data == 'string' || data === undefined\<close>), where the
  first step \<^verbatim>\<open>data.charAt(0)\<close> is a property access on undefined, a \<^verbatim>\<open>TypeError\<close>.
\<close>

theorem decodePacket_undefined_raises:
  "decodePacket pf None binaryType = Inl TypeError"
  by (simp add: decodePacket_def)

theorem decodePacket_undefined_raises_witness:
  "decodePacket plain_platform None None = Inl TypeError"
  by (rule decodePacket_undefined_raises)

text \<open>
  C4. The binary path of \<^verbatim>\<open>decodePacket\<close> and \<^verbatim>\<open>decodeBase64Packet\<close> index \<^verbatim>\<open>packetslist\<close> with
  the code they read and return what they find: for the one-byte buffer 7, and for the
  base64 text \<^verbatim>\<open>9\<close>, a packet whose type is undefined. It is not the error packet, and its
  type is none of the seven. The string path does check the code.
\<close>

theorem decodePacket_unknown_code_undefined_type:
  "decodePacket pf (Some (WBuffer [7])) None = Inr \<lparr>type = None, data = Buffer []\<rparr>
   \<and> decodeBase64Packet pf (js ''9'') None = \<lparr>type = None, data = Buffer []\<rparr>
   \<and> decodePacket pf (Some (WString (js ''b9''))) None = Inr \<lparr>type = None, data = Buffer []\<rparr>
   \<and> \<lparr>type = None, data = Buffer []\<rparr> \<noteq> err
   \<and> decodePacket pf (Some (WString (js ''9''))) None = Inr err"
  by (simp add: decodePacket_def decodeBase64Packet_def arraybuffer_def packetslist_byte_def
        packetslist_key_def buffer_at_def packetslist_at_def packetslist_def buffer_slice_from_def
        clamp_def num_def charAt_def js_def is_digit_def digit_value_def substring_def
        fromBase64_def err_def Number_def num_eq_def digits_value_def)

theorem decodePacket_unknown_code_undefined_type_witness:
  "decodePacket plain_platform (Some (WBuffer [7])) None = Inr \<lparr>type = None, data = Buffer []\<rparr>"
  using decodePacket_unknown_code_undefined_type [of plain_platform] by simp

text \<open>
  C7. \<^verbatim>\<open>decodePayloadAsBinary\<close> does not return on the one-byte buffer 0. The buffer is
  not empty, so the \<^verbatim>\<open>while\<close> loop is entered; the inner loop looks for a byte 255 from
  index 1 on, where every element is undefined, and has no other exit. No callback is
  called, with the error packet or otherwise.
\<close>

theorem decodePayloadAsBinary_no_terminator_diverges:
  "decodePayloadAsBinary pf [0] binaryType callback = None
   \<and> decodePayload pf (WBuffer [0]) binaryType callback = None"
proof -
  have "decodePayloadAsBinary_scan [0] 1 [] = None"
    by (rule scan_None) (simp add: buffer_at_def)
  then show ?thesis
    by (simp add: decodePayload_def decodePayloadAsBinary_def decodePayloadAsBinary_loop.simps)
qed

theorem decodePayloadAsBinary_no_terminator_diverges_witness:
  "decodePayloadAsBinary plain_platform [0] None keep_going = None"
  using decodePayloadAsBinary_no_terminator_diverges [of plain_platform None keep_going] by simp

text \<open>
  C3. For the one packet \<^verbatim>\<open>{type: 'message', data: 'e-acute'}\<close> (the data is the one code
  unit \<open>0xE9\<close>) the header of the segment says 2, the number of code units of the string
  \<^verbatim>\<open>4\<close> \<^verbatim>\<open>e-acute\<close>, and the body that follows has the 3 bytes of its UTF-8 form: the digits
  are those of \<^verbatim>\<open>packet.length\<close>, not of the body's length. The decoder of the same file
  reads the header as a number of bytes: given this payload it takes 2 bytes as the body,
  starts a second segment at the byte left over and does not return.
\<close>

theorem encodePayloadAsBinary_header_counts_code_units:
  "encodePayloadAsBinary pf [\<lparr>type = Some Message, data = Str [0xE9]\<rparr>]
     = Inr (WBuffer [0, 2, 255, 0x34, 0xC3, 0xA9], [\<lparr>type = Some Message, data = Str [0xE9]\<rparr>])
   \<and> decodePayloadAsBinary pf [0, 2, 255, 0x34, 0xC3, 0xA9] binaryType callback = None"
proof -
  have enc: "encodePayloadAsBinary pf [\<lparr>type = Some Message, data = Str [0xE9]\<rparr>]
     = Inr (WBuffer [0, 2, 255, 0x34, 0xC3, 0xA9], [\<lparr>type = Some Message, data = Str [0xE9]\<rparr>])"
    by (simp add: encodePayloadAsBinary_def encodeOne_binary_def encodePacket_def code_string_def
          packets_of_def decimal.simps digit_def wire_length_def parseInt_def charAt_def
          is_digit_def digits_value_def digit_value_def store_def num_def utf8_write_def
          utf8_bytes_def is_high_def is_low_def)
  have first: "decodePayloadAsBinary_scan [0, 2, 255, 0x34, 0xC3, 0xA9] 1 [] = Some (decimal 2)"
    by (simp add: scan_next scan_found buffer_at_def element_string_def)
  have second: "decodePayloadAsBinary_scan [0xA9] 1 [] = None"
    by (rule scan_None) (simp add: buffer_at_def)
  have len: "length (decimal 2) = 1"
    by (simp add: decimal.simps)
  have rest: "decodePayloadAsBinary_loop pf [0xA9] buffers = None" for buffers
    by (rule loop_diverges [OF _ second]) simp
  have "decodePayloadAsBinary_loop pf [0, 2, 255, 0x34, 0xC3, 0xA9] [] = None"
    by (subst loop_step [OF _ first])
       (simp_all add: len parseInt_decimal buffer_slice_from_def clamp_def num_def rest)
  with enc show ?thesis
    by (simp add: decodePayloadAsBinary_def)
qed

theorem encodePayloadAsBinary_header_counts_code_units_witness:
  "encodePayloadAsBinary plain_platform [\<lparr>type = Some Message, data = Str [0xE9]\<rparr>]
     = Inr (WBuffer [0, 2, 255, 0x34, 0xC3, 0xA9], [\<lparr>type = Some Message, data = Str [0xE9]\<rparr>])"
  using encodePayloadAsBinary_header_counts_code_units [of plain_platform None keep_going] by simp

section \<open>The text payload decoder, step by step\<close>

lemma js_colon: "js '':'' = [colon]"
  by (simp add: js_def colon_def)

lemma loop_other:
  "i < length d \<Longrightarrow> d ! i \<noteq> colon \<Longrightarrow>
     decodePayload_loop pf d bt cb i len calls = decodePayload_loop pf d bt cb (i + 1) (len @ [d ! i]) calls"
  by (subst decodePayload_loop.simps) (simp add: charAt_def js_colon)

lemma loop_end:
  "length d \<le> i \<Longrightarrow>
     decodePayload_loop pf d bt cb i len calls
       = (if len \<noteq> [] then Returned (calls @ [(err, 0, 1)]) else Returned calls)"
  by (subst decodePayload_loop.simps) simp

lemma length_substr: "length (substr s start n) \<le> length s - start"
  by (simp add: substr_def split: jsnum.splits)

lemma substr_num: "substr s start (num n) = take n (drop start s)"
  by (simp add: substr_def num_def)

lemma num_eq_num: "num_eq v (num n) \<longleftrightarrow> v = num n"
  by (auto simp: num_eq_def num_def)

lemma num_inject: "num a = num b \<longleftrightarrow> a = b"
  by (simp add: num_def)

lemma loop_colon_refused:
  assumes "i < length d" "d ! i = colon"
    and "len = [] \<or> (\<forall>n. Number pf len = num n \<longrightarrow> length d - (i + 1) < n)"
  shows "decodePayload_loop pf d bt cb i len calls = Returned (calls @ [(err, 0, 1)])"
proof (cases "len = []")
  case True
  with assms(1,2) show ?thesis
    by (subst decodePayload_loop.simps) (simp add: charAt_def js_colon)
next
  case False
  with assms(3) have far: "\<And>n. Number pf len = num n \<Longrightarrow> length d - (i + 1) < n" by blast
  have "\<not> num_eq (Number pf len) (num (length (substr d (i + 1) (Number pf len))))"
  proof
    assume "num_eq (Number pf len) (num (length (substr d (i + 1) (Number pf len))))"
    then have "Number pf len = num (length (substr d (i + 1) (Number pf len)))"
      by (simp add: num_eq_num)
    from far[OF this] length_substr[of d "i + 1" "Number pf len"] show False by simp
  qed
  with assms(1,2) show ?thesis
    by (subst decodePayload_loop.simps) (simp add: charAt_def js_colon Let_def)
qed

lemma loop_colon_empty:
  assumes "i < length d" "d ! i = colon" "len \<noteq> []" "Number pf len = num 0"
  shows "decodePayload_loop pf d bt cb i len calls = decodePayload_loop pf d bt cb (i + 1) [] calls"
  using assms
  by (subst decodePayload_loop.simps)
     (simp add: charAt_def js_colon Let_def substr_num num_eq_num)

lemma loop_colon_body:
  assumes "i < length d" "d ! i = colon" "len \<noteq> []" "Number pf len = num n"
    and "0 < n" "n \<le> length d - (i + 1)"
  shows "decodePayload_loop pf d bt cb i len calls =
           (case decodePacket pf (Some (WString (take n (drop (Suc i) d)))) bt of
              Inl e \<Rightarrow> Threw e calls
            | Inr packet \<Rightarrow>
                if is_err pf packet then Returned (calls @ [(err, 0, 1)])
                else if cb calls (packet, i + n, length d) = RetFalse
                     then Returned (calls @ [(packet, i + n, length d)])
                     else decodePayload_loop pf d bt cb (i + n + 1) [] (calls @ [(packet, i + n, length d)]))"
proof -
  from assms have n: "min (length d - Suc i) n = n" by simp
  from assms have ne: "take n (drop (Suc i) d) \<noteq> []" by simp
  show ?thesis
    using assms(1-4) n ne
    by (subst decodePayload_loop.simps)
       (simp add: charAt_def js_colon Let_def substr_num num_eq_num num_inject split: sum.splits)
qed

lemma natural_num: "natural (num n) = Some n"
  by (simp add: natural_def num_def)

lemma natural_Some: "natural v = Some n \<Longrightarrow> v = num n"
proof (cases v)
  case (Fin q)
  assume "natural v = Some n"
  with Fin have q: "0 \<le> q" "of_int \<lfloor>q\<rfloor> = q" "n = nat \<lfloor>q\<rfloor>"
    by (auto simp: natural_def split: if_splits)
  then have "0 \<le> \<lfloor>q\<rfloor>" by simp
  with q(3) have "int n = \<lfloor>q\<rfloor>" by simp
  then have "(of_nat n :: rat) = of_int \<lfloor>q\<rfloor>" by (metis of_int_of_nat_eq)
  also note q(2)
  finally have "q = of_nat n" by simp
  with Fin show ?thesis by (simp only: num_def)
qed (simp_all add: natural_def)

lemma natural_None: "natural v = None \<Longrightarrow> v \<noteq> num n"
  using natural_num[of n] by auto

lemma drop_Cons_nth:
  assumes "drop i xs = y # ys"
  shows "i < length xs \<and> xs ! i = y \<and> drop (Suc i) xs = ys"
proof -
  from assms have i: "i < length xs" by (cases "i < length xs") simp_all
  from Cons_nth_drop_Suc[OF i] assms show ?thesis using i by simp
qed

lemma length_drop_eq: "drop i xs = ys \<Longrightarrow> length xs - i = length ys"
  by auto

lemma loop_scan:
  "drop i d = t @ r \<Longrightarrow> colon \<notin> set t \<Longrightarrow>
     decodePayload_loop pf d bt cb i len calls
       = decodePayload_loop pf d bt cb (i + length t) (len @ t) calls"
proof (induction t arbitrary: i len)
  case Nil
  then show ?case by simp
next
  case (Cons c t)
  from Cons.prems(1) have "drop i d = c # (t @ r)" by simp
  from drop_Cons_nth[OF this] have i: "i < length d" "d ! i = c" "drop (Suc i) d = t @ r"
    by simp_all
  from Cons.prems(2) have c: "c \<noteq> colon" "colon \<notin> set t" by auto
  from i c have "decodePayload_loop pf d bt cb i len calls
                   = decodePayload_loop pf d bt cb (Suc i) (len @ [c]) calls"
    by (simp add: loop_other)
  also have "\<dots> = decodePayload_loop pf d bt cb (Suc i + length t) ((len @ [c]) @ t) calls"
    by (rule Cons.IH[OF i(3) c(2)])
  finally show ?case by simp
qed

lemma decodePacket_string: "\<exists>p. decodePacket pf (Some (WString s)) bt = Inr p"
  by (simp add: decodePacket_def Let_def)

lemma body_packet_Some:
  "body_packet pf bt body = Some p \<Longrightarrow>
     decodePacket pf (Some (WString body)) bt = Inr p \<and> \<not> is_err pf p"
  by (auto simp: body_packet_def split: sum.splits if_splits)

lemma body_packet_None:
  "body_packet pf bt body = None \<Longrightarrow>
     \<exists>p. decodePacket pf (Some (WString body)) bt = Inr p \<and> is_err pf p"
  using decodePacket_string[of pf body bt]
  by (auto simp: body_packet_def split: sum.splits if_splits)

lemma segment_step:
  assumes d: "drop i d = segment_text sg @ r"
    and wf: "well_formed pf bt sg"
    and cb: "\<forall>calls c. cb calls c \<noteq> RetFalse"
  shows "decodePayload_loop pf d bt cb i [] calls
           = decodePayload_loop pf d bt cb (i + length (segment_text sg)) []
               (calls @ segment_calls pf bt (length d) i [sg])"
proof -
  obtain len body where sg: "sg = (len, body)" by (cases sg)
  from wf sg have len: "len \<noteq> []" "colon \<notin> set len" and N: "Number pf len = num (length body)"
    and body: "body = [] \<or> body_packet pf bt body \<noteq> None"
    by (auto simp: well_formed_def dest: natural_Some)
  from d sg have d1: "drop i d = len @ (colon # body @ r)"
    by (simp add: segment_text_def js_colon)
  have scan: "decodePayload_loop pf d bt cb i [] calls
                = decodePayload_loop pf d bt cb (i + length len) len calls"
    using loop_scan[OF d1 len(2), of pf bt cb "[]" calls] by simp
  from d1 have "drop (i + length len) d = colon # body @ r"
    by (metis add.commute append_eq_conv_conj drop_drop)
  from drop_Cons_nth[OF this]
  have j: "i + length len < length d" "d ! (i + length len) = colon"
    and rest: "drop (Suc (i + length len)) d = body @ r"
    by simp_all
  from rest have room: "length body \<le> length d - (i + length len + 1)"
    using length_drop_eq[OF rest] by simp
  show ?thesis
  proof (cases "body = []")
    case True
    with N have "Number pf len = num 0" by simp
    from loop_colon_empty[OF j len(1) this] scan True sg show ?thesis
      by (simp add: segment_text_def js_colon)
  next
    case False
    with body obtain p where p: "body_packet pf bt body = Some p" by auto
    from body_packet_Some[OF p] have dp: "decodePacket pf (Some (WString body)) bt = Inr p"
      and ne: "\<not> is_err pf p" by simp_all
    from False have pos: "0 < length body" by simp
    from rest have tk: "take (length body) (drop (Suc (i + length len)) d) = body" by simp
    from loop_colon_body[OF j len(1) N pos room, of bt cb calls] scan tk dp ne cb False p sg
    show ?thesis
      by (simp add: segment_text_def js_colon add.assoc)
  qed
qed

lemma segment_calls_append:
  "segment_calls pf bt n off (xs @ ys)
     = segment_calls pf bt n off xs @ segment_calls pf bt n (off + length (concat (map segment_text xs))) ys"
  by (induction xs arbitrary: off) (simp_all add: add.assoc)

lemma segments_run:
  assumes "drop i d = concat (map segment_text segs) @ r"
    and "list_all (well_formed pf bt) segs"
    and cb: "\<forall>calls c. cb calls c \<noteq> RetFalse"
  shows "decodePayload_loop pf d bt cb i [] calls
           = decodePayload_loop pf d bt cb (i + length (concat (map segment_text segs))) []
               (calls @ segment_calls pf bt (length d) i segs)"
  using assms(1,2)
proof (induction segs arbitrary: i calls)
  case Nil
  then show ?case by simp
next
  case (Cons sg segs)
  from Cons.prems have d: "drop i d = segment_text sg @ (concat (map segment_text segs) @ r)"
    and wf: "well_formed pf bt sg" "list_all (well_formed pf bt) segs"
    by simp_all
  from d have d2: "drop (i + length (segment_text sg)) d = concat (map segment_text segs) @ r"
    by (metis add.commute append_eq_conv_conj drop_drop)
  have "decodePayload_loop pf d bt cb i [] calls
          = decodePayload_loop pf d bt cb (i + length (segment_text sg)) []
               (calls @ segment_calls pf bt (length d) i [sg])"
    by (rule segment_step[OF d wf(1) cb])
  also have "\<dots> = decodePayload_loop pf d bt cb
                      (i + length (segment_text sg) + length (concat (map segment_text segs))) []
                      ((calls @ segment_calls pf bt (length d) i [sg])
                        @ segment_calls pf bt (length d) (i + length (segment_text sg)) segs)"
    by (rule Cons.IH[OF d2 wf(2)])
  finally show ?case by (simp add: add.assoc)
qed

lemma split_at_colon:
  assumes "colon \<in> set rest"
  shows "rest = takeWhile (\<lambda>c. c \<noteq> colon) rest
                  @ colon # drop (length (takeWhile (\<lambda>c. c \<noteq> colon) rest) + 1) rest"
proof -
  let ?tw = "takeWhile (\<lambda>c. c \<noteq> colon) rest" and ?dw = "dropWhile (\<lambda>c. c \<noteq> colon) rest"
  from assms have ne: "?dw \<noteq> []" by (auto simp: dropWhile_eq_Nil_conv)
  from hd_dropWhile[OF ne] have "hd ?dw = colon" by simp
  with ne have "?dw = colon # tl ?dw" by (cases ?dw) simp_all
  moreover have "tl ?dw = drop (length ?tw + 1) rest"
    by (simp add: dropWhile_eq_drop drop_Suc tl_drop)
  moreover have "rest = ?tw @ ?dw" by simp
  ultimately show ?thesis by metis
qed

lemma malformed_run:
  assumes d: "drop i d = rest" and bad: "malformed pf bt rest"
  shows "decodePayload_loop pf d bt cb i [] calls = Returned (calls @ [(err, 0, 1)])"
proof (cases "colon \<in> set rest")
  case False
  with bad have ne: "rest \<noteq> []" by (simp add: malformed_def)
  from d have "drop i d = rest @ []" by simp
  from loop_scan[OF this False, of pf bt cb "[]" calls]
  have "decodePayload_loop pf d bt cb i [] calls
          = decodePayload_loop pf d bt cb (i + length rest) rest calls"
    by simp
  moreover from d have "length d \<le> i + length rest" by auto
  ultimately show ?thesis using ne by (simp add: loop_end)
next
  case True
  define len where "len = takeWhile (\<lambda>c. c \<noteq> colon) rest"
  define tail where "tail = drop (length len + 1) rest"
  from split_at_colon[OF True] have rest: "rest = len @ colon # tail"
    by (simp add: len_def tail_def)
  have nc: "colon \<notin> set len"
    unfolding len_def by (auto dest: set_takeWhileD)
  from d rest have d1: "drop i d = len @ (colon # tail)" by simp
  have scan: "decodePayload_loop pf d bt cb i [] calls
                = decodePayload_loop pf d bt cb (i + length len) len calls"
    using loop_scan[OF d1 nc, of pf bt cb "[]" calls] by simp
  from d1 have "drop (i + length len) d = colon # tail"
    by (metis add.commute append_eq_conv_conj drop_drop)
  from drop_Cons_nth[OF this]
  have j: "i + length len < length d" "d ! (i + length len) = colon"
    and tl: "drop (Suc (i + length len)) d = tail"
    by simp_all
  from length_drop_eq[OF tl] have room: "length d - (i + length len + 1) = length tail" by simp
  from bad True have cases:
    "len = [] \<or> (case natural (Number pf len) of None \<Rightarrow> True
                 | Some n \<Rightarrow> length tail < n \<or> (0 < n \<and> body_packet pf bt (take n tail) = None))"
    unfolding malformed_def Let_def len_def tail_def by simp
  show ?thesis
  proof (cases "len = [] \<or> (\<forall>n. Number pf len = num n \<longrightarrow> length tail < n)")
    case True
    with room have "len = [] \<or> (\<forall>n. Number pf len = num n \<longrightarrow> length d - (i + length len + 1) < n)"
      by simp
    from loop_colon_refused[OF j this] scan show ?thesis by simp
  next
    case False
    then obtain n where len: "len \<noteq> []" and N: "Number pf len = num n" and fits: "n \<le> length tail"
      by (auto simp: not_less)
    from N have "natural (Number pf len) = Some n" by (simp add: natural_num)
    with cases len fits have pos: "0 < n" and bp: "body_packet pf bt (take n tail) = None"
      by auto
    from body_packet_None[OF bp] obtain p
      where p: "decodePacket pf (Some (WString (take n tail))) bt = Inr p" "is_err pf p"
      by blast
    from fits room have "n \<le> length d - (i + length len + 1)" by simp
    from loop_colon_body[OF j len N pos this, of bt cb calls] scan tl p
    show ?thesis by simp
  qed
qed

lemma decodePayload_text:
  "s \<noteq> [] \<Longrightarrow> decodePayload pf (WString s) bt cb = Some (decodePayload_loop pf s bt cb 0 [] [])"
  by (simp add: decodePayload_def)

section \<open>What the encoders do to their packets\<close>

lemma encodeBase64Packet_after:
  "case encodeBase64Packet p of Inr (s, p1) \<Rightarrow> packet_after None p p1 | Inl e \<Rightarrow> data p = Undefined"
  by (cases "data p")
     (simp_all add: encodeBase64Packet_def data_toString_base64_def packet_after_def truthy_def Let_def)

lemma encodePacket_after:
  "\<exists>w p1. encodePacket p supportsBinary = Inr (w, p1) \<and> packet_after supportsBinary p p1"
  by (cases "data p")
     (simp_all add: encodePacket_def encodeBase64Packet_def data_toString_base64_def packet_after_def Let_def)

lemma packet_after_falsy: "packet_after supportsBinary p p1 \<Longrightarrow> \<not> truthy supportsBinary \<Longrightarrow> packet_after None p p1"
  by (simp add: packet_after_def truthy_def split: jsdata.splits)

lemma map_ary_after:
  assumes "\<And>p. \<exists>r p1. doOne p = Inr (r, p1) \<and> packet_after None p p1"
  shows "\<exists>rs ps1. map_ary doOne ps = Inr (rs, ps1) \<and> list_all2 (packet_after None) ps ps1"
proof (induction ps)
  case Nil
  show ?case by simp
next
  case (Cons p ps)
  from assms[of p] obtain r p1 where "doOne p = Inr (r, p1)" "packet_after None p p1" by blast
  moreover from Cons obtain rs ps1 where "map_ary doOne ps = Inr (rs, ps1)" "list_all2 (packet_after None) ps ps1"
    by blast
  ultimately show ?case by simp
qed

lemma encodeOne_binary_after: "\<exists>r p1. encodeOne_binary pf p = Inr (r, p1) \<and> packet_after None p p1"
proof -
  from encodePacket_after[of p None] obtain w p1 where "encodePacket p None = Inr (w, p1)" "packet_after None p p1"
    by blast
  then show ?thesis
    by (cases w) (simp_all add: encodeOne_binary_def Let_def)
qed

lemma encodeOne_after:
  assumes "\<not> truthy supportsBinary"
  shows "\<exists>r p1. encodeOne pf supportsBinary p = Inr (r, p1) \<and> packet_after None p p1"
proof -
  from encodePacket_after[of p supportsBinary] obtain w p1
    where "encodePacket p supportsBinary = Inr (w, p1)" "packet_after supportsBinary p p1"
    by blast
  with assms show ?thesis
    by (auto simp: encodeOne_def dest: packet_after_falsy)
qed

lemma encodePayload_after:
  "\<exists>w ps1. encodePayload pf ps supportsBinary = Inr (w, ps1) \<and> list_all2 (packet_after None) ps ps1"
proof (cases "truthy supportsBinary")
  case True
  from map_ary_after[of "encodeOne_binary pf" ps, OF encodeOne_binary_after]
  obtain rs ps1 where "map_ary (encodeOne_binary pf) ps = Inr (rs, ps1)" "list_all2 (packet_after None) ps ps1"
    by blast
  with True show ?thesis
    by (auto simp: encodePayload_def encodePayloadAsBinary_def)
next
  case False
  from map_ary_after[of "encodeOne pf supportsBinary" ps, OF encodeOne_after[OF False]]
  obtain rs ps1 where "map_ary (encodeOne pf supportsBinary) ps = Inr (rs, ps1)" "list_all2 (packet_after None) ps ps1"
    by blast
  with False show ?thesis
    by (auto simp: encodePayload_def)
qed

text \<open>
  C9, as the code has it. \<^verbatim>\<open>encodePacket\<close>, \<^verbatim>\<open>encodeBase64Packet\<close> and \<^verbatim>\<open>encodePayload\<close> never
  change a packet's type, and change its data in one case only: data that is an
  \<^verbatim>\<open>ArrayBuffer\<close> and goes through \<^verbatim>\<open>encodeBase64Packet\<close> (called directly; from
  \<^verbatim>\<open>encodePacket\<close> when the capability is not set; from \<^verbatim>\<open>encodePayload\<close> in both modes,
  since the binary mode passes no capability on) is replaced by a Node buffer of the same
  length. Every other packet is after the call what it was before. The encoders return
  normally, but for \<^verbatim>\<open>encodeBase64Packet\<close> on a packet without data.
\<close>

theorem encoders_replace_only_ArrayBuffer_data:
  "(\<exists>w p1. encodePacket p supportsBinary = Inr (w, p1) \<and> packet_after supportsBinary p p1)
   \<and> (case encodeBase64Packet p of
         Inr (s, p1) \<Rightarrow> packet_after None p p1
       | Inl e \<Rightarrow> data p = Undefined)
   \<and> (\<exists>w ps1. encodePayload pf ps supportsBinary = Inr (w, ps1)
         \<and> list_all2 (packet_after None) ps ps1)"
  using encodePacket_after [of p supportsBinary] encodeBase64Packet_after [of p]
    encodePayload_after [of pf ps supportsBinary]
  by blast

theorem encoders_replace_only_ArrayBuffer_data_witness:
  "(\<exists>w p1. encodePacket \<lparr>type = Some Message, data = ArrayBuffer [1, 2, 3]\<rparr> (Some False)
               = Inr (w, p1)
          \<and> packet_after (Some False) \<lparr>type = Some Message, data = ArrayBuffer [1, 2, 3]\<rparr> p1)
   \<and> (case encodeBase64Packet \<lparr>type = Some Message, data = ArrayBuffer [1, 2, 3]\<rparr> of
         Inr (s, p1) \<Rightarrow> packet_after None \<lparr>type = Some Message, data = ArrayBuffer [1, 2, 3]\<rparr> p1
       | Inl e \<Rightarrow> data \<lparr>type = Some Message, data = ArrayBuffer [1, 2, 3]\<rparr> = Undefined)
   \<and> (\<exists>w ps1. encodePayload plain_platform
                   [\<lparr>type = Some Message, data = ArrayBuffer [1, 2, 3]\<rparr>] (Some False)
                 = Inr (w, ps1)
         \<and> list_all2 (packet_after None)
               [\<lparr>type = Some Message, data = ArrayBuffer [1, 2, 3]\<rparr>] ps1)"
  by (rule encoders_replace_only_ArrayBuffer_data)

text \<open>
  The claim as stated fails: after \<^verbatim>\<open>encodeBase64Packet\<close> on a message packet whose data is
  the \<^verbatim>\<open>ArrayBuffer\<close> 1, 2, 3, the packet's data is a Node buffer (of three zero bytes).
\<close>

theorem encodeBase64Packet_assigns_packet_data:
  "encodeBase64Packet \<lparr>type = Some Message, data = ArrayBuffer [1, 2, 3]\<rparr>
     = Inr (js ''b4AAAA'', \<lparr>type = Some Message, data = Buffer [0, 0, 0]\<rparr>)
   \<and> \<lparr>type = Some Message, data = Buffer [0, 0, 0]\<rparr>
       \<noteq> \<lparr>type = Some Message, data = ArrayBuffer [1, 2, 3]\<rparr>"
  by (simp add: encodeBase64Packet_def data_toString_base64_def toBase64_def Let_def store_def
        base64_char_def base64_chars_def js_def code_string_def packets_of_def decimal.simps
        digit_def)

section \<open>The length prefix of a text segment\<close>

text \<open>
  C8, as the code has it. When the text payload decoder reads a colon at position \<open>i\<close>,
  with the prefix \<open>len\<close> read so far: if the prefix is empty, or is not, as a number, a
  natural number that fits in what follows the colon (so also when fewer than \<open>n\<close>
  characters remain), the decoder calls back with the error packet, 0 and 1, and stops.
  A prefix that is not empty and is, as a number, a natural number \<open>n\<close> that fits is
  accepted whatever its spelling: the run goes on exactly as with the canonical decimal
  form of \<open>n\<close>. (\<^verbatim>\<open>length != Number(length)\<close> compares a string with a number, which
  converts the string: it only fails on not-a-number.)
\<close>

theorem decodePayload_length_prefix:
  assumes "charAt data_in i = js '':''"
  shows "(len = [] \<or> (\<forall>n. Number pf len = num n \<longrightarrow> length data_in - (i + 1) < n) \<longrightarrow>
            decodePayload_loop pf data_in bt cb i len calls = Returned (calls @ [(err, 0, 1)]))
       \<and> (len \<noteq> [] \<and> Number pf len = num n \<and> n \<le> length data_in - (i + 1) \<longrightarrow>
            decodePayload_loop pf data_in bt cb i len calls
              = decodePayload_loop pf data_in bt cb i (decimal n) calls)"
proof -
  from assms have i: "i < length data_in" "data_in ! i = colon"
    by (auto simp: charAt_def js_colon split: if_splits)
  have B: "decodePayload_loop pf data_in bt cb i len calls
              = decodePayload_loop pf data_in bt cb i (decimal n) calls"
    if "len \<noteq> []" "Number pf len = num n" "n \<le> length data_in - (i + 1)"
  proof (cases "n = 0")
    case True
    with that show ?thesis
      by (simp add: loop_colon_empty[OF i] Number_decimal decimal_not_Nil)
  next
    case False
    then have "0 < n" by simp
    from loop_colon_body[OF i that(1,2) this that(3)]
         loop_colon_body[OF i decimal_not_Nil Number_decimal this that(3)]
    show ?thesis by simp
  qed
  from loop_colon_refused[OF i] B show ?thesis by blast
qed

theorem decodePayload_length_prefix_witness:
  "charAt (js ''01:2'') 2 = js '':'' \<and> js ''01'' \<noteq> [] \<and> Number plain_platform (js ''01'') = num 1
   \<and> 1 \<le> length (js ''01:2'') - (2 + 1)
   \<and> decodePayload_loop plain_platform (js ''01:2'') None keep_going 2 (js ''01'') []
       = decodePayload_loop plain_platform (js ''01:2'') None keep_going 2 (decimal 1) []
   \<and> charAt (js '':2'') 0 = js '':''
   \<and> decodePayload_loop plain_platform (js '':2'') None keep_going 0 [] []
       = Returned ([] @ [(err, 0, 1)])"
proof -
  have c1: "charAt (js ''01:2'') 2 = js '':''" by code_simp
  have n1: "js ''01'' \<noteq> []" by code_simp
  have n2: "Number plain_platform (js ''01'') = num 1" by code_simp
  have n3: "1 \<le> length (js ''01:2'') - (2 + 1)" by code_simp
  have c2: "charAt (js '':2'') 0 = js '':''" by code_simp
  from decodePayload_length_prefix [OF c1, of "js ''01''" plain_platform None keep_going "[]" 1]
    n1 n2 n3
  have a: "decodePayload_loop plain_platform (js ''01:2'') None keep_going 2 (js ''01'') []
       = decodePayload_loop plain_platform (js ''01:2'') None keep_going 2 (decimal 1) []"
    by blast
  from decodePayload_length_prefix [OF c2, of "[]" plain_platform None keep_going "[]"]
  have b: "decodePayload_loop plain_platform (js '':2'') None keep_going 0 [] []
       = Returned ([] @ [(err, 0, 1)])"
    by blast
  from c1 n1 n2 n3 a c2 b show ?thesis by blast
qed

text \<open>
  The claim as stated fails: the prefix \<^verbatim>\<open>01\<close> is not the canonical form of 1 and is
  accepted. The payload \<^verbatim>\<open>01:2\<close> delivers a ping packet and no error.
\<close>

theorem decodePayload_accepts_leading_zero:
  "decodePayload plain_platform (WString (js ''01:2'')) None keep_going
     = Some (Returned [(\<lparr>type = Some Ping, data = Undefined\<rparr>, 3, 4)])"
  by code_simp

section \<open>A malformed segment in a text payload\<close>

lemma segment_calls_no_error:
  "list_all (\<lambda>c. fst c \<noteq> err) (segment_calls pf bt ntotal offset segs)"
proof (induction segs arbitrary: offset)
  case Nil
  show ?case by simp
next
  case (Cons sg segs)
  have "is_err pf err" by (simp add: is_err_def err_def)
  then have "p \<noteq> err" if "body_packet pf bt body = Some p" for body p
    using body_packet_Some [OF that] by auto
  with Cons show ?case by (auto split: option.splits if_splits)
qed

text \<open>
  C5, as the code has it. Take a text payload that is some well-formed segments followed
  by a rest that starts with a malformed segment, and a callback that does not return
  \<^verbatim>\<open>false\<close>. \<^verbatim>\<open>decodePayload\<close> first makes the calls of the well-formed segments (one for
  each that has a body, none of them with the error packet), then calls back once with
  the error packet, 0 and 1, and makes no further call. The empty payload gets the error
  call alone. So the error is reported exactly once and last, but it is the only call
  just when no segment with a body precedes the malformed one.
\<close>

theorem decodePayload_malformed_segment:
  assumes "list_all (well_formed pf bt) segs" and "malformed pf bt rest"
    and "\<forall>calls c. cb calls c \<noteq> RetFalse"
  shows "decodePayload pf (WString (concat (map segment_text segs) @ rest)) bt cb
           = Some (Returned
               (segment_calls pf bt (length (concat (map segment_text segs) @ rest)) 0 segs
                 @ [(err, 0, 1)]))
         \<and> list_all (\<lambda>c. fst c \<noteq> err)
               (segment_calls pf bt (length (concat (map segment_text segs) @ rest)) 0 segs)
         \<and> decodePayload pf (WString []) bt cb = Some (Returned [(err, 0, 1)])"
proof -
  let ?d = "concat (map segment_text segs) @ rest"
  from assms(2) have "rest \<noteq> []" by (auto simp: malformed_def split: if_splits)
  then have ne: "?d \<noteq> []" by simp
  have "drop 0 ?d = concat (map segment_text segs) @ rest" by simp
  from segments_run [OF this assms(1,3), of "[]"]
  have "decodePayload_loop pf ?d bt cb 0 [] []
          = decodePayload_loop pf ?d bt cb (length (concat (map segment_text segs))) []
              (segment_calls pf bt (length ?d) 0 segs)"
    by simp
  also have "\<dots> = Returned (segment_calls pf bt (length ?d) 0 segs @ [(err, 0, 1)])"
    by (rule malformed_run [OF _ assms(2)]) simp
  finally have "decodePayload pf (WString ?d) bt cb
                  = Some (Returned (segment_calls pf bt (length ?d) 0 segs @ [(err, 0, 1)]))"
    by (simp only: decodePayload_text [OF ne])
  moreover have "decodePayload pf (WString []) bt cb = Some (Returned [(err, 0, 1)])"
    by (simp add: decodePayload_def)
  ultimately show ?thesis using segment_calls_no_error by blast
qed

theorem decodePayload_malformed_segment_witness:
  "list_all (well_formed plain_platform None) [(js ''1'', js ''2'')]
   \<and> malformed plain_platform None (js ''x'')
   \<and> (\<forall>calls c. keep_going calls c \<noteq> RetFalse)
   \<and> decodePayload plain_platform
         (WString (concat (map segment_text [(js ''1'', js ''2'')]) @ js ''x'')) None keep_going
       = Some (Returned
           (segment_calls plain_platform None
              (length (concat (map segment_text [(js ''1'', js ''2'')]) @ js ''x'')) 0
              [(js ''1'', js ''2'')]
             @ [(err, 0, 1)]))"
proof -
  have a: "list_all (well_formed plain_platform None) [(js ''1'', js ''2'')]" by code_simp
  have b: "malformed plain_platform None (js ''x'')" by code_simp
  have c: "\<forall>calls c. keep_going calls c \<noteq> RetFalse" by (simp add: keep_going_def)
  from decodePayload_malformed_segment [OF a b c] a b c show ?thesis by blast
qed

text \<open>
  The claim as stated fails: on the payload \<^verbatim>\<open>1:2x\<close> (a ping segment, then a character
  that no colon follows) the callback is called twice, first with the ping packet.
\<close>

theorem decodePayload_delivers_before_error:
  "decodePayload plain_platform (WString (js ''1:2x'')) None keep_going
     = Some (Returned [(\<lparr>type = Some Ping, data = Undefined\<rparr>, 2, 4), (err, 0, 1)])"
  by code_simp

section \<open>Base64 reads back what it wrote\<close>

















section \<open>The round trip of a packet\<close>














section \<open>The round trip of a text payload\<close>

















section \<open>The round trip of a binary payload\<close>

subsection \<open>ASCII text in UTF-8\<close>












subsection \<open>The text of a packet is ASCII\<close>










subsection \<open>Reading a binary segment\<close>











subsection \<open>The round trip of a binary payload\<close>




section \<open>The round trip of a payload\<close>




end
